theory Spec2Isabelle
  imports
    Main
    "HOL-Library.AList"
    "HOL-Library.Char_ord"
    "HOL-Library.List_Lexorder"
    "HOL-Library.Multiset"
    "HOL-Library.Product_Lexorder"
begin

section \<open>Data model of \<open>process_covidtracking.py\<close>\<close>

text \<open>
  A calendar date is the triple (year, month, day); Python's \<open>datetime.date\<close> compares
  dates by exactly this triple, which is the lexicographic order on the product.
\<close>

type_synonym date = "nat \<times> nat \<times> nat"

text \<open>
  A cell of the data frame holds a number or \<open>np.nan\<close>, the missing-value marker:
  \<open>None\<close> is \<open>np.nan\<close>. Numbers are the integers the feed reports, counts on which
  \<open>float64\<close> arithmetic is exact; the rounding of larger numbers is not part of the model.
\<close>

type_synonym cell = "int option"

text \<open>
  One element of \<open>json_data\<close>: \<open>str(entry['state'])\<close>, \<open>str(entry['date'])\<close> and the
  remaining keys of the dictionary. A key maps to \<open>Some None\<close> when the JSON value is
  \<open>null\<close> (Python's \<open>None\<close>), and to \<open>None\<close> when the key is absent.
\<close>

record entry =
  e_state :: string
  e_date :: string
  e_fields :: "string \<rightharpoonup> int option"

text \<open>
  A row of the data frame: the two levels of its MultiIndex entry and the cells of the row,
  one per column, in column order. A frame is the list of its rows; the columns of a
  frame without rows are not represented.
\<close>

record row =
  r_state :: string
  r_date :: date
  r_cells :: "(string \<times> cell) list"

type_synonym dataframe = "row list"

datatype error = ValueError | TypeError | KeyError | ConnectionError | JSONDecodeError

section \<open>\<open>datetime.strptime(s, '%Y%m%d').date()\<close>\<close>

text \<open>
  Python compiles the format into the regular expression
  \<open>(?P<Y>\d\d\d\d)(?P<m>1[0-2]|0[1-9]|[1-9])(?P<d>3[0-1]|[1-2]\d|0[1-9]|[1-9]| [1-9])\<close>,
  takes the first match in backtracking order, fails when text remains after the match,
  and fails when the three numbers are not a date of the calendar (years 1 to 9999).
  Each group is modelled by the list of its matches at the head of the text, in the
  order of its alternatives, each with the text that remains.
\<close>

definition is_digit :: "char \<Rightarrow> bool" where
  "is_digit c = (CHR ''0'' \<le> c \<and> c \<le> CHR ''9'')"

definition digit_val :: "char \<Rightarrow> nat" where
  "digit_val c = of_char c - of_char CHR ''0''"

fun re_Y :: "string \<Rightarrow> (nat \<times> string) list" where
  "re_Y (a # b # c # d # rest) =
     (if is_digit a \<and> is_digit b \<and> is_digit c \<and> is_digit d
      then [(1000 * digit_val a + 100 * digit_val b + 10 * digit_val c + digit_val d, rest)]
      else [])"
| "re_Y _ = []"

fun two_chars :: "(char \<Rightarrow> bool) \<Rightarrow> (char \<Rightarrow> bool) \<Rightarrow> string \<Rightarrow> (nat \<times> string) list" where
  "two_chars p q (a # b # rest) =
     (if p a \<and> q b then [((if is_digit a then 10 * digit_val a else 0) + digit_val b, rest)]
      else [])"
| "two_chars p q _ = []"

fun one_char :: "(char \<Rightarrow> bool) \<Rightarrow> string \<Rightarrow> (nat \<times> string) list" where
  "one_char p (a # rest) = (if p a then [(digit_val a, rest)] else [])"
| "one_char p [] = []"

definition in_range :: "char \<Rightarrow> char \<Rightarrow> char \<Rightarrow> bool" where
  "in_range lo hi c = (lo \<le> c \<and> c \<le> hi)"

definition re_m :: "string \<Rightarrow> (nat \<times> string) list" where
  "re_m s =
     two_chars ((=) CHR ''1'') (in_range CHR ''0'' CHR ''2'') s
     @ two_chars ((=) CHR ''0'') (in_range CHR ''1'' CHR ''9'') s
     @ one_char (in_range CHR ''1'' CHR ''9'') s"

definition re_d :: "string \<Rightarrow> (nat \<times> string) list" where
  "re_d s =
     two_chars ((=) CHR ''3'') (in_range CHR ''0'' CHR ''1'') s
     @ two_chars (in_range CHR ''1'' CHR ''2'') is_digit s
     @ two_chars ((=) CHR ''0'') (in_range CHR ''1'' CHR ''9'') s
     @ one_char (in_range CHR ''1'' CHR ''9'') s
     @ two_chars ((=) CHR '' '') (in_range CHR ''1'' CHR ''9'') s"

definition re_match :: "string \<Rightarrow> (date \<times> string) list" where
  "re_match s =
     concat (map (\<lambda>(y, s1).
       concat (map (\<lambda>(m, s2).
         map (\<lambda>(d, s3). ((y, m, d), s3)) (re_d s2)) (re_m s1))) (re_Y s))"

definition is_leap :: "nat \<Rightarrow> bool" where
  "is_leap y = (y mod 4 = 0 \<and> (y mod 100 \<noteq> 0 \<or> y mod 400 = 0))"

definition days_in_month :: "nat \<Rightarrow> nat \<Rightarrow> nat" where
  "days_in_month y m =
     (if m = 2 then (if is_leap y then 29 else 28)
      else if m \<in> {4, 6, 9, 11} then 30 else 31)"

definition valid_date :: "date \<Rightarrow> bool" where
  "valid_date dt = (case dt of (y, m, d) \<Rightarrow>
     1 \<le> y \<and> y \<le> 9999 \<and> 1 \<le> m \<and> m \<le> 12 \<and> 1 \<le> d \<and> d \<le> days_in_month y m)"

definition strptime_Ymd :: "string \<Rightarrow> date option" where
  "strptime_Ymd s =
     (case re_match s of
        [] \<Rightarrow> None
      | (dt, rest) # _ \<Rightarrow> if rest \<noteq> [] then None else if valid_date dt then Some dt else None)"

section \<open>\<open>ExtractDataFrame\<close>\<close>

text \<open>The list \<open>keys\<close> of the source: (column of the data frame, key of the JSON entry).\<close>

definition keys :: "(string \<times> string) list" where
  "keys =
    [(''cum_positive'', ''positive''),
     (''cum_total'', ''total''),
     (''curr_hosp'', ''hospitalizedCurrently''),
     (''cum_hosp'', ''hospitalizedCumulative''),
     (''curr_icu'', ''inIcuCurrently''),
     (''cum_icu'', ''inIcuCumulative''),
     (''curr_vent'', ''onVentilatorCurrently''),
     (''cum_vent'', ''onVentilatorCumulative''),
     (''cum_death'', ''death''),
     (''new_death'', ''deathIncrease'')]"

text \<open>
  The dictionary \<open>data\<close>: column name to the list of the column's values, in insertion
  order. Lines 75 and 76 give every column of \<open>keys\<close> the empty list.
\<close>

type_synonym columns = "(string \<times> cell list) list"

definition init_data :: columns where
  "init_data = fold (\<lambda>key data. AList.update (fst key) [] data) keys []"

text \<open>
  Lines 91 to 97, for one key: the value of the entry when the key is present and not
  \<open>None\<close>, \<open>np.nan\<close> otherwise, appended to the column of the key.
\<close>

definition extract_cell :: "entry \<Rightarrow> string \<Rightarrow> cell" where
  "extract_cell entry k =
     (case e_fields entry k of
        Some v \<Rightarrow> (case v of Some n \<Rightarrow> Some n | None \<Rightarrow> None)
      | None \<Rightarrow> None)"

definition append_cell :: "entry \<Rightarrow> string \<times> string \<Rightarrow> columns \<Rightarrow> columns" where
  "append_cell entry key data =
     AList.map_entry (fst key) (\<lambda>vs. vs @ [extract_cell entry (snd key)]) data"

text \<open>
  The loop over \<open>json_data\<close> (lines 82 to 97). A date that does not parse raises
  \<open>ValueError\<close> and ends the loop.
\<close>

fun collect ::
  "date \<Rightarrow> entry list \<Rightarrow> (string \<times> date) list \<Rightarrow> columns \<Rightarrow> string list
   \<Rightarrow> error + ((string \<times> date) list \<times> columns \<times> string list)" where
  "collect start_date [] indices data all_locations = Inr (indices, data, all_locations)"
| "collect start_date (entry # rest) indices data all_locations =
     (case strptime_Ymd (e_date entry) of
        None \<Rightarrow> Inl ValueError
      | Some d \<Rightarrow>
          if start_date \<le> d
          then collect start_date rest (indices @ [(e_state entry, d)])
                 (fold (append_cell entry) keys data) (all_locations @ [e_state entry])
          else collect start_date rest indices data (all_locations @ [e_state entry]))"

text \<open>
  \<open>pd.MultiIndex.from_tuples(tuples, names=...)\<close>: pandas raises \<open>TypeError\<close> on an
  empty list only when no names are given (it cannot infer the number of levels); with
  names, the empty list gives the empty index.
\<close>

definition from_tuples :: "(string \<times> date) list \<Rightarrow> string list option \<Rightarrow> error + (string \<times> date) list" where
  "from_tuples tuples names = (if tuples = [] \<and> names = None then Inl TypeError else Inr tuples)"

text \<open>
  \<open>pd.DataFrame(data=data, index=index)\<close>: row \<open>i\<close> has the \<open>i\<close>-th tuple of the index
  and the \<open>i\<close>-th value of every column; pandas raises \<open>ValueError\<close> when a column is
  not as long as the index.
\<close>

definition DataFrame :: "columns \<Rightarrow> (string \<times> date) list \<Rightarrow> error + dataframe" where
  "DataFrame data index =
     (if \<exists>column \<in> set data. length (snd column) \<noteq> length index then Inl ValueError
      else Inr (map (\<lambda>i. \<lparr>r_state = fst (index ! i), r_date = snd (index ! i),
                            r_cells = map (\<lambda>column. (fst column, snd column ! i)) data\<rparr>)
                  [0..<length index]))"

text \<open>
  \<open>np.unique\<close>: the sorted unique elements of the list. Strings are ordered as Python
  orders them, character by character, a proper prefix before the longer string.
\<close>

definition np_unique :: "string list \<Rightarrow> string list" where
  "np_unique xs = sort (remdups xs)"

text \<open>
  \<open>df.sort_index(level=1)\<close>: a stable sort on the date level, ties broken by the
  remaining level (the state).
\<close>

definition sort_index_level1 :: "dataframe \<Rightarrow> dataframe" where
  "sort_index_level1 df = sort_key (\<lambda>r. (r_date r, r_state r)) df"

text \<open>\<open>df.index.unique(level=0)\<close>: the states of the index, each once, in order of appearance.\<close>

definition index_unique_level0 :: "dataframe \<Rightarrow> string list" where
  "index_unique_level0 df = rev (remdups (rev (map r_state df)))"

text \<open>
  The rows of one state, in the order of the frame: what \<open>df.loc[state]\<close> selects.
\<close>

definition loc :: "string \<Rightarrow> dataframe \<Rightarrow> dataframe" where
  "loc s df = filter (\<lambda>r. r_state r = s) df"

text \<open>
  The value of a row in one column, and whether the row has the column. All rows of a
  frame have the same columns.
\<close>

definition col :: "string \<Rightarrow> row \<Rightarrow> cell" where
  "col c r = (case map_of (r_cells r) c of Some v \<Rightarrow> v | None \<Rightarrow> None)"

definition has_col :: "string \<Rightarrow> row \<Rightarrow> bool" where
  "has_col c r = (c \<in> fst ` set (r_cells r))"

text \<open>Subtraction of \<open>float64\<close> cells: \<open>np.nan\<close> on either side gives \<open>np.nan\<close>.\<close>

fun sub :: "cell \<Rightarrow> cell \<Rightarrow> cell" where
  "sub (Some a) (Some b) = Some (a - b)"
| "sub _ _ = None"

text \<open>\<open>np.diff\<close>: \<open>out[i] = a[i+1] - a[i]\<close>.\<close>

fun np_diff :: "cell list \<Rightarrow> cell list" where
  "np_diff (a # b # xs) = sub b a # np_diff (b # xs)"
| "np_diff _ = []"

definition np_zeros :: "nat \<Rightarrow> cell list" where
  "np_zeros n = replicate n (Some 0)"

text \<open>
  Lines 109 and 110: an array of zeros as long as the state has rows, whose elements
  from index 1 on are replaced by the differences. \<open>df.loc[state]\<close> raises \<open>KeyError\<close>
  for a state the index does not have, and \<open>['cum_positive']\<close> raises \<open>KeyError\<close> when
  the frame has no such column.
\<close>

definition new_cases_of :: "string \<Rightarrow> dataframe \<Rightarrow> error + cell list" where
  "new_cases_of s df =
     (if s \<notin> r_state ` set df then Inl KeyError
      else if \<not> list_all (has_col ''cum_positive'') (loc s df) then Inl KeyError
      else (let cum_positive = map (col ''cum_positive'') (loc s df)
            in Inr (take 1 (np_zeros (length cum_positive)) @ np_diff cum_positive)))"

text \<open>
  \<open>df.loc[state, c] = values\<close>: a column the frame does not have yet is added to every
  row, filled with \<open>np.nan\<close>; then the rows of the state take the values in order.
  pandas raises \<open>ValueError\<close> when the number of values is not the number of rows.
\<close>

definition set_cell :: "string \<Rightarrow> cell \<Rightarrow> row \<Rightarrow> row" where
  "set_cell c v r = r\<lparr>r_cells := AList.update c v (r_cells r)\<rparr>"

definition ensure_col :: "string \<Rightarrow> row \<Rightarrow> row" where
  "ensure_col c r = (if has_col c r then r else set_cell c None r)"

fun assign :: "string \<Rightarrow> string \<Rightarrow> cell list \<Rightarrow> dataframe \<Rightarrow> dataframe" where
  "assign s c vs [] = []"
| "assign s c vs (r # df) =
     (if r_state r = s
      then (case vs of
              v # vs' \<Rightarrow> set_cell c v r # assign s c vs' df
            | [] \<Rightarrow> ensure_col c r # assign s c [] df)
      else ensure_col c r # assign s c vs df)"

definition set_loc :: "string \<Rightarrow> string \<Rightarrow> cell list \<Rightarrow> dataframe \<Rightarrow> error + dataframe" where
  "set_loc s c vs df =
     (if length vs \<noteq> length (loc s df) then Inl ValueError else Inr (assign s c vs df))"

text \<open>The loop over the states (lines 107 to 111).\<close>

fun new_cases_loop :: "string list \<Rightarrow> dataframe \<Rightarrow> error + dataframe" where
  "new_cases_loop [] df = Inr df"
| "new_cases_loop (s # ss) df =
     (case new_cases_of s df of
        Inl e \<Rightarrow> Inl e
      | Inr new_cases \<Rightarrow>
          (case set_loc s ''new_cases'' new_cases df of
             Inl e \<Rightarrow> Inl e
           | Inr df' \<Rightarrow> new_cases_loop ss df'))"

definition ExtractDataFrame :: "entry list \<Rightarrow> date \<Rightarrow> error + (dataframe \<times> string list)" where
  "ExtractDataFrame json_data start_date =
     (case collect start_date json_data [] init_data [] of
        Inl e \<Rightarrow> Inl e
      | Inr (indices, data, all_locations) \<Rightarrow>
          (case from_tuples indices (Some [''state'', ''date'']) of
             Inl e \<Rightarrow> Inl e
           | Inr index \<Rightarrow>
               (case DataFrame data index of
                  Inl e \<Rightarrow> Inl e
                | Inr df0 \<Rightarrow>
                    (let df = sort_index_level1 df0
                     in case new_cases_loop (index_unique_level0 df) df of
                          Inl e \<Rightarrow> Inl e
                        | Inr df' \<Rightarrow> Inr (df', np_unique all_locations)))))"

section \<open>\<open>GetData\<close>\<close>











section \<open>What the loop over \<open>json_data\<close> computes\<close>

text \<open>
  The entries that pass the date filter, each with its parsed date, in input order; the
  index tuple, the columns and the row they give.
\<close>

definition qualifying :: "date \<Rightarrow> entry list \<Rightarrow> (entry \<times> date) list" where
  "qualifying start_date es =
     List.map_filter (\<lambda>e. case strptime_Ymd (e_date e) of
                             Some d \<Rightarrow> if start_date \<le> d then Some (e, d) else None
                           | None \<Rightarrow> None) es"

definition ix :: "entry \<times> date \<Rightarrow> string \<times> date" where
  "ix p = (e_state (fst p), snd p)"

definition cols :: "(entry \<times> date) list \<Rightarrow> columns" where
  "cols q = map (\<lambda>key. (fst key, map (\<lambda>p. extract_cell (fst p) (snd key)) q)) keys"

definition mk_row :: "entry \<times> date \<Rightarrow> row" where
  "mk_row p =
     \<lparr>r_state = e_state (fst p), r_date = snd p,
      r_cells = map (\<lambda>key. (fst key, extract_cell (fst p) (snd key))) keys\<rparr>"

text \<open>The index of a frame as the list of its tuples.\<close>

definition index_of :: "dataframe \<Rightarrow> (string \<times> date) list" where
  "index_of df = map (\<lambda>r. (r_state r, r_date r)) df"

section \<open>Definitions for the proofs and the examples\<close>

text \<open>
  The values lines 109 and 110 compute when neither lookup raises, and one pass of the
  loop over the states when nothing raises.
\<close>

definition diffs :: "string \<Rightarrow> dataframe \<Rightarrow> cell list" where
  "diffs s df =
     (let cum_positive = map (col ''cum_positive'') (loc s df)
      in take 1 (np_zeros (length cum_positive)) @ np_diff cum_positive)"

definition loop_step :: "string \<Rightarrow> dataframe \<Rightarrow> dataframe" where
  "loop_step s df = assign s ''new_cases'' (diffs s df) df"

text \<open>The column names of a row, and the names after a column has been assigned.\<close>

definition add_col :: "string \<Rightarrow> string list \<Rightarrow> string list" where
  "add_col c ks = (if c \<in> set ks then ks else ks @ [c])"

definition names :: "row \<Rightarrow> string list" where
  "names r = map fst (r_cells r)"

text \<open>The frame after \<open>sort_index\<close>, before the loop over the states.\<close>

definition frame0 :: "date \<Rightarrow> entry list \<Rightarrow> dataframe" where
  "frame0 start json = sort_index_level1 (map mk_row (qualifying start json))"

text \<open>
  Example entries: the two entries of the scenario for state AZ, an entry of NY dated
  before the start date 2020-02-01, an entry whose \<open>positive\<close> is \<open>null\<close> and which has
  no \<open>hospitalizedCurrently\<close>, and one more day of AZ.
\<close>

definition az1 :: entry where
  "az1 = \<lparr>e_state = ''AZ'', e_date = ''20200201'', e_fields = [''positive'' \<mapsto> Some 10]\<rparr>"

definition az2 :: entry where
  "az2 = \<lparr>e_state = ''AZ'', e_date = ''20200202'', e_fields = [''positive'' \<mapsto> Some 15]\<rparr>"

definition ny1 :: entry where
  "ny1 = \<lparr>e_state = ''NY'', e_date = ''20200115'', e_fields = [''positive'' \<mapsto> Some 3]\<rparr>"

definition az3 :: entry where
  "az3 = \<lparr>e_state = ''AZ'', e_date = ''20200203'',
          e_fields = [''positive'' \<mapsto> None, ''hospitalizedCumulative'' \<mapsto> Some 4]\<rparr>"

definition az4 :: entry where
  "az4 = \<lparr>e_state = ''AZ'', e_date = ''20200204'', e_fields = [''positive'' \<mapsto> Some 20]\<rparr>"

definition example_json :: "entry list" where
  "example_json = [ny1, az2, az1, az3, az4]"

text \<open>
  A row with the eleven columns of a returned frame, \<open>np.nan\<close> in all but three.
\<close>

definition example_row :: "string \<Rightarrow> date \<Rightarrow> cell \<Rightarrow> cell \<Rightarrow> cell \<Rightarrow> row" where
  "example_row s d cum_positive cum_hosp new_cases =
     \<lparr>r_state = s, r_date = d,
      r_cells =
        [(''cum_positive'', cum_positive), (''cum_total'', None), (''curr_hosp'', None),
         (''cum_hosp'', cum_hosp), (''curr_icu'', None), (''cum_icu'', None),
         (''curr_vent'', None), (''cum_vent'', None), (''cum_death'', None),
         (''new_death'', None), (''new_cases'', new_cases)]\<rparr>"

definition example_frame :: dataframe where
  "example_frame =
     [example_row ''AZ'' (2020, 2, 1) (Some 10) None (Some 0),
      example_row ''AZ'' (2020, 2, 2) (Some 15) None (Some 5),
      example_row ''AZ'' (2020, 2, 3) None (Some 4) None,
      example_row ''AZ'' (2020, 2, 4) (Some 20) None None]"

definition scenario_frame :: dataframe where
  "scenario_frame =
     [example_row ''AZ'' (2020, 2, 1) (Some 10) None (Some 0),
      example_row ''AZ'' (2020, 2, 2) (Some 15) None (Some 5)]"

definition duplicate_frame :: dataframe where
  "duplicate_frame =
     [example_row ''AZ'' (2020, 2, 1) (Some 10) None (Some 0),
      example_row ''AZ'' (2020, 2, 1) (Some 10) None (Some 0)]"

text \<open>The index tuple of a row and its cells in the ten columns of \<open>keys\<close>.\<close>

definition base :: "row \<Rightarrow> string \<times> date \<times> cell list" where
  "base r = (r_state r, r_date r, map (\<lambda>key. col (fst key) r) keys)"



section \<open>Lemmas\<close>

lemma init_data_cols: "init_data = cols []"
  by (simp add: init_data_def cols_def keys_def)

lemma append_cols: "fold (append_cell e) keys (cols q) = cols (q @ [(e, d)])"
  by (simp add: cols_def keys_def append_cell_def)

lemma qualifying_Nil: "qualifying start [] = []"
  by (simp add: qualifying_def map_filter_simps)

lemma qualifying_Cons:
  "qualifying start (e # es) =
     (case strptime_Ymd (e_date e) of
        Some d \<Rightarrow> if start \<le> d then (e, d) # qualifying start es else qualifying start es
      | None \<Rightarrow> qualifying start es)"
  by (simp add: qualifying_def map_filter_simps split: option.splits)

lemma ix_pair: "ix (e, d) = (e_state e, d)"
  by (simp add: ix_def)

lemma collect_ok:
  "\<forall>e\<in>set es. strptime_Ymd (e_date e) \<noteq> None \<Longrightarrow>
   collect start es (map ix q) (cols q) locs =
     Inr (map ix (q @ qualifying start es), cols (q @ qualifying start es), locs @ map e_state es)"
proof (induction es arbitrary: q locs)
  case Nil
  then show ?case by (simp add: qualifying_Nil)
next
  case (Cons e es)
  then obtain d where d: "strptime_Ymd (e_date e) = Some d" by auto
  show ?case
  proof (cases "start \<le> d")
    case True
    have "collect start es (map ix (q @ [(e, d)])) (cols (q @ [(e, d)])) (locs @ [e_state e]) =
      Inr (map ix ((q @ [(e, d)]) @ qualifying start es), cols ((q @ [(e, d)]) @ qualifying start es),
           (locs @ [e_state e]) @ map e_state es)"
      using Cons.prems by (intro Cons.IH) simp
    then show ?thesis using d True
      by (simp add: qualifying_Cons append_cols [where d = d] ix_pair)
  next
    case False
    have "collect start es (map ix q) (cols q) (locs @ [e_state e]) =
      Inr (map ix (q @ qualifying start es), cols (q @ qualifying start es),
           (locs @ [e_state e]) @ map e_state es)"
      using Cons.prems by (intro Cons.IH) simp
    then show ?thesis using d False by (simp add: qualifying_Cons)
  qed
qed

lemma collect_err:
  "\<exists>e\<in>set es. strptime_Ymd (e_date e) = None \<Longrightarrow> collect start es indices data locs = Inl ValueError"
  by (induction es arbitrary: indices data locs) (auto split: option.splits)

lemma DataFrame_cols: "DataFrame (cols q) (map ix q) = Inr (map mk_row q)"
proof -
  have len: "\<not> (\<exists>column \<in> set (cols q). length (snd column) \<noteq> length (map ix q))"
    by (auto simp: cols_def)
  have "map (\<lambda>i. \<lparr>r_state = fst (map ix q ! i), r_date = snd (map ix q ! i),
                   r_cells = map (\<lambda>column. (fst column, snd column ! i)) (cols q)\<rparr>)
          [0..<length (map ix q)] = map mk_row q"
    by (rule nth_equalityI) (simp_all add: mk_row_def ix_def cols_def)
  with len show ?thesis unfolding DataFrame_def by simp
qed

subsection \<open>Cells\<close>

lemma state_set_cell [simp]: "r_state (set_cell c v r) = r_state r"
  and date_set_cell [simp]: "r_date (set_cell c v r) = r_date r"
  by (simp_all add: set_cell_def)

lemma state_ensure_col [simp]: "r_state (ensure_col c r) = r_state r"
  and date_ensure_col [simp]: "r_date (ensure_col c r) = r_date r"
  by (simp_all add: ensure_col_def)

lemma col_set_cell: "col c' (set_cell c v r) = (if c' = c then v else col c' r)"
  by (simp add: col_def set_cell_def update_conv')

lemma col_ensure_col [simp]: "col c' (ensure_col c r) = col c' r"
proof (cases "c \<in> fst ` set (r_cells r)")
  case True
  then show ?thesis by (simp add: ensure_col_def has_col_def)
next
  case False
  then have "map_of (r_cells r) c = None" by (simp add: map_of_eq_None_iff)
  with False show ?thesis by (simp add: ensure_col_def has_col_def col_set_cell) (simp add: col_def)
qed

lemma names_set_cell: "names (set_cell c v r) = add_col c (names r)"
  by (simp add: names_def set_cell_def add_col_def update_keys)

lemma names_ensure_col: "names (ensure_col c r) = add_col c (names r)"
proof (cases "c \<in> fst ` set (r_cells r)")
  case True
  then show ?thesis by (simp add: ensure_col_def has_col_def names_def add_col_def)
next
  case False
  then show ?thesis by (simp add: ensure_col_def has_col_def names_set_cell)
qed

lemma has_col_names: "has_col c r \<longleftrightarrow> c \<in> set (names r)"
  by (simp add: has_col_def names_def)

lemma has_col_set_cell: "has_col c' r \<Longrightarrow> has_col c' (set_cell c v r)"
  by (simp add: has_col_names names_set_cell add_col_def)

lemma has_col_ensure_col: "has_col c' r \<Longrightarrow> has_col c' (ensure_col c r)"
  by (simp add: has_col_names names_ensure_col add_col_def)

lemma add_col_idem [simp]: "add_col c (add_col c ks) = add_col c ks"
  by (simp add: add_col_def)

subsection \<open>One assignment\<close>

lemma index_of_assign [simp]: "index_of (assign s c vs df) = index_of df"
  by (induction df arbitrary: vs) (auto simp: index_of_def split: list.splits)

lemma states_assign [simp]: "r_state ` set (assign s c vs df) = r_state ` set df"
proof -
  have "map r_state (assign s c vs df) = map r_state df"
    by (induction df arbitrary: vs) (auto split: list.splits)
  then have "set (map r_state (assign s c vs df)) = set (map r_state df)" by simp
  then show ?thesis by (simp only: set_map)
qed

lemma has_col_assign: "list_all (has_col c') df \<Longrightarrow> list_all (has_col c') (assign s c vs df)"
  by (induction df arbitrary: vs) (auto simp: has_col_set_cell has_col_ensure_col split: list.splits)

lemma names_assign: "map names (assign s c vs df) = map (add_col c \<circ> names) df"
  by (induction df arbitrary: vs) (auto simp: names_set_cell names_ensure_col split: list.splits)

lemma col_assign_other: "c' \<noteq> c \<Longrightarrow> map (col c') (assign s c vs df) = map (col c') df"
  by (induction df arbitrary: vs) (auto simp: col_set_cell split: list.splits)



lemma loc_col_assign_other:
  "c' \<noteq> c \<Longrightarrow> map (col c') (loc s' (assign s c vs df)) = map (col c') (loc s' df)"
  by (induction df arbitrary: vs) (auto simp: loc_def col_set_cell split: list.splits)

subsection \<open>The differences\<close>

lemma length_np_diff [simp]: "length (np_diff xs) = length xs - 1"
  by (induction xs rule: np_diff.induct) auto


lemma length_diffs [simp]: "length (diffs s df) = length (loc s df)"
  by (cases "loc s df") (simp_all add: diffs_def np_zeros_def)

lemma set_loc_new_cases: "set_loc s c (diffs s df) df = Inr (assign s c (diffs s df) df)"
  by (simp add: set_loc_def)

lemma new_cases_of_diffs:
  "s \<in> r_state ` set df \<Longrightarrow> list_all (has_col ''cum_positive'') df \<Longrightarrow>
   new_cases_of s df = Inr (diffs s df)"
  by (simp add: new_cases_of_def diffs_def loc_def list_all_iff)

lemma new_cases_loop_fold:
  "set ss \<subseteq> r_state ` set df \<Longrightarrow> list_all (has_col ''cum_positive'') df \<Longrightarrow>
   new_cases_loop ss df = Inr (fold loop_step ss df)"
proof (induction ss arbitrary: df)
  case Nil
  then show ?case by simp
next
  case (Cons s ss)
  from Cons.prems have 1: "new_cases_of s df = Inr (diffs s df)"
    by (intro new_cases_of_diffs) simp_all
  have 2: "set_loc s ''new_cases'' (diffs s df) df = Inr (loop_step s df)"
    by (simp add: set_loc_new_cases loop_step_def)
  have "new_cases_loop ss (loop_step s df) = Inr (fold loop_step ss (loop_step s df))"
  proof (rule Cons.IH)
    show "set ss \<subseteq> r_state ` set (loop_step s df)"
      using Cons.prems(1) by (simp add: loop_step_def)
    show "list_all (has_col ''cum_positive'') (loop_step s df)"
      unfolding loop_step_def using Cons.prems(2) by (rule has_col_assign)
  qed
  with 1 2 show ?case by simp
qed

subsection \<open>The loop over the states\<close>

lemma index_of_loop [simp]: "index_of (fold loop_step ss df) = index_of df"
  by (induction ss arbitrary: df) (simp_all add: loop_step_def)

lemma col_loop_other:
  "c \<noteq> ''new_cases'' \<Longrightarrow> map (col c) (fold loop_step ss df) = map (col c) df"
  by (induction ss arbitrary: df) (simp_all add: loop_step_def col_assign_other)

lemma diffs_step [simp]: "diffs s (loop_step s' df) = diffs s df"
  by (simp add: diffs_def loop_step_def loc_col_assign_other)

lemma diffs_loop [simp]: "diffs s (fold loop_step ss df) = diffs s df"
  by (induction ss arbitrary: df) simp_all



lemma names_loop:
  "ss \<noteq> [] \<Longrightarrow> map names (fold loop_step ss df) = map (add_col ''new_cases'' \<circ> names) df"
proof (induction ss arbitrary: df)
  case Nil
  then show ?case by simp
next
  case (Cons s0 ss)
  show ?case
  proof (cases "ss = []")
    case True
    then show ?thesis by (simp add: loop_step_def names_assign)
  next
    case False
    then have "map names (fold loop_step ss (loop_step s0 df)) =
               map (add_col ''new_cases'' \<circ> names) (loop_step s0 df)"
      by (rule Cons.IH)
    also have "\<dots> = map (add_col ''new_cases'') (map names (loop_step s0 df))" by simp
    also have "\<dots> = map (add_col ''new_cases'' \<circ> names) df"
      by (simp add: loop_step_def names_assign)
    finally show ?thesis by simp
  qed
qed

subsection \<open>Sorting\<close>

lemma fst_le_prod: "(p :: date \<times> string) \<le> q \<Longrightarrow> fst p \<le> fst q"
  by (cases p, cases q) (auto simp: less_eq_prod_def)

lemma sorted_dates: "sorted (map r_date (sort_index_level1 df))"
proof -
  have "sorted (map (\<lambda>r. (r_date r, r_state r)) (sort_index_level1 df))"
    unfolding sort_index_level1_def by (rule sorted_sort_key)
  then have "sorted_wrt (\<lambda>x y. (r_date x, r_state x) \<le> (r_date y, r_state y)) (sort_index_level1 df)"
    by (simp add: sorted_map)
  then have "sorted_wrt (\<lambda>x y. r_date x \<le> r_date y) (sort_index_level1 df)"
    by (rule sorted_wrt_mono_rel [rotated]) (use fst_le_prod in fastforce)
  then show ?thesis by (simp add: sorted_map)
qed

lemma mset_sort_index: "mset (sort_index_level1 df) = mset df"
  by (simp add: sort_index_level1_def)

lemma set_index_unique [simp]: "set (index_unique_level0 df) = r_state ` set df"
  by (simp add: index_unique_level0_def)

lemma index_unique_Nil [simp]: "index_unique_level0 df = [] \<longleftrightarrow> df = []"
  by (metis set_index_unique image_is_empty set_empty)

lemma has_cum_positive_frame0: "list_all (has_col ''cum_positive'') (frame0 start json)"
  by (simp add: frame0_def sort_index_level1_def list_all_iff has_col_def mk_row_def keys_def)

lemma EDF_ok:
  assumes "\<forall>e\<in>set json. strptime_Ymd (e_date e) \<noteq> None"
  shows "ExtractDataFrame json start =
         Inr (fold loop_step (index_unique_level0 (frame0 start json)) (frame0 start json),
              np_unique (map e_state json))"
proof -
  have "collect start json (map ix []) (cols []) [] =
        Inr (map ix ([] @ qualifying start json), cols ([] @ qualifying start json), [] @ map e_state json)"
    using assms by (rule collect_ok)
  then have c: "collect start json [] init_data [] =
        Inr (map ix (qualifying start json), cols (qualifying start json), map e_state json)"
    by (simp add: init_data_cols)
  have "new_cases_loop (index_unique_level0 (frame0 start json)) (frame0 start json) =
        Inr (fold loop_step (index_unique_level0 (frame0 start json)) (frame0 start json))"
    by (rule new_cases_loop_fold) (simp_all add: has_cum_positive_frame0)
  then show ?thesis
    unfolding ExtractDataFrame_def c
    by (simp add: from_tuples_def DataFrame_cols frame0_def Let_def)
qed

lemma EDF_err:
  assumes "\<exists>e\<in>set json. strptime_Ymd (e_date e) = None"
  shows "ExtractDataFrame json start = Inl ValueError"
  unfolding ExtractDataFrame_def using collect_err [OF assms] by simp

lemma EDF_Inr:
  assumes "ExtractDataFrame json start = Inr (df, locs)"
  shows "(\<forall>e\<in>set json. strptime_Ymd (e_date e) \<noteq> None) \<and>
         df = fold loop_step (index_unique_level0 (frame0 start json)) (frame0 start json) \<and>
         locs = np_unique (map e_state json)"
proof (cases "\<exists>e\<in>set json. strptime_Ymd (e_date e) = None")
  case True
  from EDF_err [OF this] assms show ?thesis by simp
next
  case False
  then have ok: "\<forall>e\<in>set json. strptime_Ymd (e_date e) \<noteq> None" by simp
  from EDF_ok [OF ok] assms ok show ?thesis by simp
qed

lemma dates_loc: "map r_date (loc s df) = map snd (filter (\<lambda>p. fst p = s) (index_of df))"
  by (induction df) (simp_all add: loc_def index_of_def)

lemma states_index: "r_state ` set df = fst ` set (index_of df)"
  by (force simp: index_of_def)

lemma loc_Nil_iff: "loc s df = [] \<longleftrightarrow> s \<notin> r_state ` set df"
  by (auto simp: loc_def filter_empty_conv)

lemma index_of_rows: "index_of (map mk_row q) = map ix q"
  by (simp add: index_of_def mk_row_def ix_def)

lemma mset_index_of: "mset df = mset df' \<Longrightarrow> mset (index_of df) = mset (index_of df')"
  unfolding index_of_def by (metis mset_map)

lemma index_of_frame0: "mset (index_of (frame0 start json)) = mset (map ix (qualifying start json))"
proof -
  have "mset (frame0 start json) = mset (map mk_row (qualifying start json))"
    unfolding frame0_def by (rule mset_sort_index)
  then have "mset (index_of (frame0 start json)) = mset (index_of (map mk_row (qualifying start json)))"
    by (rule mset_index_of)
  then show ?thesis by (simp only: index_of_rows)
qed

lemma dates_index: "map r_date df = map snd (index_of df)"
  by (simp add: index_of_def comp_def)

lemma set_qualifying:
  "set (qualifying start json) =
   {(e, d). e \<in> set json \<and> strptime_Ymd (e_date e) = Some d \<and> start \<le> d}"
  by (induction json) (auto simp: qualifying_Nil qualifying_Cons split: option.splits)

text \<open>What holds of every frame that \<open>ExtractDataFrame\<close> returns.\<close>

lemma EDF_index:
  assumes "ExtractDataFrame json start = Inr (df, locs)"
  shows "index_of df = index_of (frame0 start json)"
  using EDF_Inr [OF assms] by simp


lemma EDF_sorted:
  assumes "ExtractDataFrame json start = Inr (df, locs)"
  shows "sorted (map r_date df)" and "sorted (map r_date (loc s df))"
proof -
  have "map r_date df = map snd (index_of df)" by (rule dates_index)
  also have "\<dots> = map snd (index_of (frame0 start json))"
    by (simp only: EDF_index [OF assms])
  also have "\<dots> = map r_date (frame0 start json)" by (simp only: dates_index)
  finally show "sorted (map r_date df)" by (simp add: frame0_def sorted_dates)
  then show "sorted (map r_date (loc s df))" unfolding loc_def by (rule sorted_filter)
qed

lemma EDF_key_set:
  assumes "ExtractDataFrame json start = Inr (df, locs)"
  shows "set (index_of df) =
         {(e_state e, d) | e d. e \<in> set json \<and> strptime_Ymd (e_date e) = Some d \<and> start \<le> d}"
proof -
  have "set (index_of df) = set_mset (mset (index_of (frame0 start json)))"
    by (simp add: EDF_index [OF assms])
  also have "\<dots> = ix ` set (qualifying start json)"
    by (simp only: index_of_frame0) simp
  also have "\<dots> = {(e_state e, d) | e d. e \<in> set json \<and> strptime_Ymd (e_date e) = Some d \<and> start \<le> d}"
    by (force simp: set_qualifying ix_def)
  finally show ?thesis .
qed

lemma np_unique_props:
  "np_unique xs = sorted_list_of_set (set xs)" "sorted (np_unique xs)" "distinct (np_unique xs)"
  "set (np_unique xs) = set xs"
  by (simp_all add: np_unique_def sorted_list_of_set_sort_remdups)

lemma example_run:
  "ExtractDataFrame example_json (2020, 2, 1) = Inr (example_frame, [''AZ'', ''NY''])"
  by code_simp



lemma scenario_run: "ExtractDataFrame [az1, az2] (2020, 2, 1) = Inr (scenario_frame, [''AZ''])"
  by code_simp

lemma EDF_distinct:
  assumes "ExtractDataFrame json start = Inr (df, locs)"
  shows "distinct (index_of df) \<longleftrightarrow> distinct (map ix (qualifying start json))"
  unfolding EDF_index [OF assms] using index_of_frame0 by (rule mset_eq_imp_distinct_iff)

lemma distinct_dates_loc:
  assumes "distinct (index_of df)"
  shows "distinct (map r_date (loc s df))"
proof -
  have "distinct (filter (\<lambda>p. fst p = s) (index_of df))" using assms by (rule distinct_filter)
  moreover have "inj_on snd (set (filter (\<lambda>p. fst p = s) (index_of df)))"
    by (auto simp: inj_on_def)
  ultimately show ?thesis by (simp add: dates_loc distinct_map)
qed

lemma duplicate_run: "ExtractDataFrame [az1, az1] (2020, 2, 1) = Inr (duplicate_frame, [''AZ''])"
  by code_simp

lemma names_mk_row: "names (mk_row p) = map fst keys"
  by (simp add: names_def mk_row_def comp_def)

lemma new_cases_not_key: "''new_cases'' \<notin> set (map fst keys)"
  by (simp add: keys_def)

lemma EDF_names:
  assumes "ExtractDataFrame json start = Inr (df, locs)" and "r \<in> set df"
  shows "names r = map fst keys @ [''new_cases'']"
proof -
  let ?df0 = "frame0 start json"
  from EDF_Inr [OF assms(1)] have df: "df = fold loop_step (index_unique_level0 ?df0) ?df0" by simp
  have "?df0 \<noteq> []" using assms(2) EDF_index [OF assms(1)] by (auto simp: index_of_def)
  then have "index_unique_level0 ?df0 \<noteq> []" by simp
  then have "map names df = map (add_col ''new_cases'' \<circ> names) ?df0"
    unfolding df by (rule names_loop)
  moreover from assms(2) have "names r \<in> set (map names df)" by simp
  ultimately obtain r0 where r0: "r0 \<in> set ?df0" and n: "names r = add_col ''new_cases'' (names r0)"
    by auto
  from r0 have "r0 \<in> set (map mk_row (qualifying start json))"
    by (simp add: frame0_def sort_index_level1_def)
  then have "names r0 = map fst keys" by (auto simp: names_mk_row)
  with n new_cases_not_key show ?thesis by (simp add: add_col_def)
qed

lemma base_set_cell [simp]: "base (set_cell ''new_cases'' v r) = base r"
  by (simp add: base_def keys_def col_set_cell)

lemma base_ensure_col [simp]: "base (ensure_col c r) = base r"
  by (simp add: base_def)

lemma base_assign [simp]: "map base (assign s ''new_cases'' vs df) = map base df"
  by (induction df arbitrary: vs) (auto split: list.splits)






section \<open>The claims\<close>



text \<open>
  C2. The set of (state, date) tuples of the index of the frame that \<open>ExtractDataFrame\<close>
  returns is exactly the set of the (state, date) pairs of the input entries whose date
  is on or after the start date. For the two entries of state AZ dated 2020-02-01
  (positive 10) and 2020-02-02 (positive 15) and the start date 2020-02-01, the frame has
  two rows, with \<open>new_cases\<close> 0 and 5.
\<close>

theorem key_set_and_scenario:
  "(\<forall>json_data start_date df all_locations.
      ExtractDataFrame json_data start_date = Inr (df, all_locations) \<longrightarrow>
      set (index_of df) =
        {(e_state e, d) | e d.
           e \<in> set json_data \<and> strptime_Ymd (e_date e) = Some d \<and> start_date \<le> d}) \<and>
   ExtractDataFrame [az1, az2] (2020, 2, 1) =
     Inr ([example_row ''AZ'' (2020, 2, 1) (Some 10) None (Some 0),
           example_row ''AZ'' (2020, 2, 2) (Some 15) None (Some 5)], [''AZ''])"
  using EDF_key_set scenario_run [unfolded scenario_frame_def] by blast

theorem key_set_and_scenario_witness:
  "ExtractDataFrame [az1, az2] (2020, 2, 1) = Inr (scenario_frame, [''AZ'']) \<and>
   index_of scenario_frame = [(''AZ'', (2020, 2, 1)), (''AZ'', (2020, 2, 2))] \<and>
   {(e_state e, d) | e d.
      e \<in> set [az1, az2] \<and> strptime_Ymd (e_date e) = Some d \<and> (2020, 2, 1) \<le> d} =
   {(''AZ'', (2020, 2, 1)), (''AZ'', (2020, 2, 2))}"
proof -
  have ix: "index_of scenario_frame = [(''AZ'', (2020, 2, 1)), (''AZ'', (2020, 2, 2))]"
    by code_simp
  from key_set_and_scenario scenario_run
  have "set (index_of scenario_frame) =
    {(e_state e, d) | e d.
       e \<in> set [az1, az2] \<and> strptime_Ymd (e_date e) = Some d \<and> (2020, 2, 1) \<le> d}"
    by blast
  then have "{(e_state e, d) | e d.
      e \<in> set [az1, az2] \<and> strptime_Ymd (e_date e) = Some d \<and> (2020, 2, 1) \<le> d} =
   {(''AZ'', (2020, 2, 1)), (''AZ'', (2020, 2, 2))}"
    unfolding ix by simp
  with scenario_run ix show ?thesis by blast
qed

text \<open>
  C3. The list of locations that \<open>ExtractDataFrame\<close> returns is the sorted list, without
  duplicates, of the states of all input entries; it is the same for every start date.
  A state all of whose entries are dated before the start date is in the list and has no
  row in the frame.
\<close>

theorem region_set_all_records:
  assumes "ExtractDataFrame json_data start_date = Inr (df, all_locations)"
  shows "all_locations = sorted_list_of_set (e_state ` set json_data) \<and>
         sorted all_locations \<and> distinct all_locations \<and>
         set all_locations = e_state ` set json_data \<and>
         (\<forall>start' df' locs'. ExtractDataFrame json_data start' = Inr (df', locs') \<longrightarrow> locs' = all_locations) \<and>
         (\<forall>s \<in> e_state ` set json_data.
            (\<forall>e \<in> set json_data. e_state e = s \<longrightarrow> (\<forall>d. strptime_Ymd (e_date e) = Some d \<longrightarrow> d < start_date))
            \<longrightarrow> s \<in> set all_locations \<and> loc s df = [])"
proof -
  from EDF_Inr [OF assms] have locs: "all_locations = np_unique (map e_state json_data)" by simp
  have a: "all_locations = sorted_list_of_set (e_state ` set json_data)"
    and b: "sorted all_locations" and c: "distinct all_locations"
    and d: "set all_locations = e_state ` set json_data"
    unfolding locs by (simp_all add: np_unique_props)
  have e: "locs' = all_locations" if "ExtractDataFrame json_data start' = Inr (df', locs')" for start' df' locs'
    using EDF_Inr [OF that] locs by simp
  have f: "s \<in> set all_locations \<and> loc s df = []"
    if s: "s \<in> e_state ` set json_data"
      and old: "\<forall>e \<in> set json_data. e_state e = s \<longrightarrow> (\<forall>d. strptime_Ymd (e_date e) = Some d \<longrightarrow> d < start_date)"
    for s
  proof -
    have "s \<notin> fst ` set (index_of df)"
      unfolding EDF_key_set [OF assms] using old by force
    then have "loc s df = []" by (simp add: loc_Nil_iff states_index)
    with s d show ?thesis by simp
  qed
  from a b c d e f show ?thesis by blast
qed

theorem region_set_all_records_witness:
  "ExtractDataFrame example_json (2020, 2, 1) = Inr (example_frame, [''AZ'', ''NY'']) \<and>
   e_state ` set example_json = {''AZ'', ''NY''} \<and>
   [''AZ'', ''NY''] = sorted_list_of_set (e_state ` set example_json) \<and>
   ''NY'' \<in> set [''AZ'', ''NY''] \<and> loc ''NY'' example_frame = []"
proof -
  note t = region_set_all_records [OF example_run]
  have states: "e_state ` set example_json = {''AZ'', ''NY''}"
    by (auto simp: example_json_def ny1_def az1_def az2_def az3_def az4_def)
  have d: "strptime_Ymd ''20200115'' = Some (2020, 1, 15)" by code_simp
  have lt: "((2020, 1, 15) :: date) < (2020, 2, 1)" by simp
  have old: "\<forall>e \<in> set example_json. e_state e = ''NY'' \<longrightarrow>
      (\<forall>d. strptime_Ymd (e_date e) = Some d \<longrightarrow> d < (2020, 2, 1))"
    using d lt by (simp add: example_json_def ny1_def az1_def az2_def az3_def az4_def)
  have ny: "''NY'' \<in> e_state ` set example_json" by (simp add: states)
  from t ny old have "''NY'' \<in> set [''AZ'', ''NY''] \<and> loc ''NY'' example_frame = []" by blast
  moreover from t have "[''AZ'', ''NY''] = sorted_list_of_set (e_state ` set example_json)" by blast
  ultimately show ?thesis using example_run states by blast
qed

text \<open>
  C4 (amended). In the frame that \<open>ExtractDataFrame\<close> returns the rows of each state
  are in ascending date order. The (state, date) tuples of the index are pairwise
  distinct exactly when those of the input entries dated on or after the start date are;
  in that case the dates of each state's rows are strictly ascending.
\<close>

theorem rows_ordered_by_date:
  assumes "ExtractDataFrame json_data start_date = Inr (df, all_locations)"
  shows "sorted (map r_date (loc s df)) \<and>
         (distinct (index_of df) \<longleftrightarrow> distinct (map ix (qualifying start_date json_data))) \<and>
         (distinct (map ix (qualifying start_date json_data)) \<longrightarrow>
            sorted_wrt (<) (map r_date (loc s df)))"
proof -
  have a: "sorted (map r_date (loc s df))" by (rule EDF_sorted(2) [OF assms])
  have b: "distinct (index_of df) \<longleftrightarrow> distinct (map ix (qualifying start_date json_data))"
    by (rule EDF_distinct [OF assms])
  have c: "sorted_wrt (<) (map r_date (loc s df))" if "distinct (map ix (qualifying start_date json_data))"
    using that a b distinct_dates_loc [of df s] by (simp add: strict_sorted_iff)
  from a b c show ?thesis by blast
qed

theorem rows_ordered_by_date_witness:
  "ExtractDataFrame example_json (2020, 2, 1) = Inr (example_frame, [''AZ'', ''NY'']) \<and>
   distinct (map ix (qualifying (2020, 2, 1) example_json)) \<and>
   distinct (index_of example_frame) \<and>
   sorted_wrt (<) (map r_date (loc ''AZ'' example_frame))"
proof -
  have d: "distinct (map ix (qualifying (2020, 2, 1) example_json))" by code_simp
  from rows_ordered_by_date [OF example_run, of "''AZ''"] d example_run show ?thesis by blast
qed

theorem duplicate_records_counterexample:
  "ExtractDataFrame [az1, az1] (2020, 2, 1) = Inr (duplicate_frame, [''AZ'']) \<and>
   index_of duplicate_frame = [(''AZ'', (2020, 2, 1)), (''AZ'', (2020, 2, 1))] \<and>
   \<not> distinct (index_of duplicate_frame) \<and>
   \<not> sorted_wrt (<) (map r_date (loc ''AZ'' duplicate_frame))"
proof -
  have ix: "index_of duplicate_frame = [(''AZ'', (2020, 2, 1)), (''AZ'', (2020, 2, 1))]"
    by code_simp
  have dates: "map r_date (loc ''AZ'' duplicate_frame) = [(2020, 2, 1), (2020, 2, 1)]"
    by code_simp
  show ?thesis unfolding dates using duplicate_run ix by simp
qed

text \<open>
  C5 (amended). The list \<open>keys\<close> has exactly ten entries, with ten distinct column
  names; every row of the frame that \<open>ExtractDataFrame\<close> returns has these ten columns
  followed by the derived column \<open>new_cases\<close>, eleven columns in all.
\<close>

theorem ten_keys_eleven_columns:
  "length keys = 10 \<and> distinct (map fst keys) \<and>
   (\<forall>json_data start_date df all_locations.
      ExtractDataFrame json_data start_date = Inr (df, all_locations) \<longrightarrow>
      (\<forall>r \<in> set df. map fst (r_cells r) = map fst keys @ [''new_cases''] \<and>
                     length (r_cells r) = 11))"
proof -
  have a: "length keys = 10" and b: "distinct (map fst keys)" by (simp_all add: keys_def)
  have c: "map fst (r_cells r) = map fst keys @ [''new_cases''] \<and> length (r_cells r) = 11"
    if "ExtractDataFrame json_data start_date = Inr (df, all_locations)" and "r \<in> set df"
    for json_data start_date df all_locations r
  proof -
    have n: "map fst (r_cells r) = map fst keys @ [''new_cases'']"
      using EDF_names [OF that] by (simp add: names_def)
    have "length (r_cells r) = length (map fst (r_cells r))" by simp
    also have "\<dots> = 11" unfolding n using a by simp
    finally show ?thesis using n by simp
  qed
  from a b c show ?thesis by blast
qed

theorem ten_keys_eleven_columns_witness:
  "ExtractDataFrame [az1, az2] (2020, 2, 1) = Inr (scenario_frame, [''AZ'']) \<and>
   scenario_frame ! 0 \<in> set scenario_frame \<and>
   map fst (r_cells (scenario_frame ! 0)) = map fst keys @ [''new_cases''] \<and>
   length (r_cells (scenario_frame ! 0)) = 11"
proof -
  have mem: "scenario_frame ! 0 \<in> set scenario_frame" by (simp add: scenario_frame_def)
  from ten_keys_eleven_columns scenario_run mem show ?thesis by blast
qed

theorem nine_keys_counterexample:
  "length keys \<noteq> 9 \<and>
   ExtractDataFrame [az1, az2] (2020, 2, 1) = Inr (scenario_frame, [''AZ'']) \<and>
   map (\<lambda>r. length (r_cells r)) scenario_frame = [11, 11]"
proof -
  have "length keys \<noteq> 9" by (simp add: keys_def)
  moreover have "map (\<lambda>r. length (r_cells r)) scenario_frame = [11, 11]"
    by (simp add: scenario_frame_def example_row_def)
  ultimately show ?thesis using scenario_run by simp
qed









text \<open>
  C10 (amended). When every input entry has a date that parses and lies before the
  start date (in particular when there is no input entry), \<open>ExtractDataFrame\<close> raises no
  error: it returns the frame without rows, and the sorted list of all input states.
\<close>

theorem nothing_qualifies_gives_empty_frame:
  assumes "\<forall>e \<in> set json_data. \<exists>d. strptime_Ymd (e_date e) = Some d \<and> d < start_date"
  shows "ExtractDataFrame json_data start_date = Inr ([], np_unique (map e_state json_data))"
proof -
  from assms have ok: "\<forall>e \<in> set json_data. strptime_Ymd (e_date e) \<noteq> None" by auto
  have "set (qualifying start_date json_data) = {}"
    unfolding set_qualifying using assms by fastforce
  then have "frame0 start_date json_data = []"
    by (simp add: frame0_def sort_index_level1_def)
  then show ?thesis using EDF_ok [OF ok, of start_date] by (simp add: index_unique_level0_def)
qed

theorem nothing_qualifies_gives_empty_frame_witness:
  "strptime_Ymd (e_date ny1) = Some (2020, 1, 15) \<and> ((2020, 1, 15) :: date) < (2020, 2, 1) \<and>
   ExtractDataFrame [ny1] (2020, 2, 1) = Inr ([], [''NY''])"
proof -
  have d: "strptime_Ymd (e_date ny1) = Some (2020, 1, 15)" by code_simp
  have lt: "((2020, 1, 15) :: date) < (2020, 2, 1)" by simp
  have u: "np_unique (map e_state [ny1]) = [''NY'']" by code_simp
  have "\<forall>e \<in> set [ny1]. \<exists>d. strptime_Ymd (e_date e) = Some d \<and> d < (2020, 2, 1)"
    using d lt by simp
  from nothing_qualifies_gives_empty_frame [OF this] d lt show ?thesis unfolding u by simp
qed

theorem empty_input_counterexample:
  "ExtractDataFrame [] (2020, 2, 1) = Inr ([], []) \<and>
   ExtractDataFrame [ny1] (2020, 2, 1) = Inr ([], [''NY''])"
  by code_simp

end
